theory Spec2Isabelle
  imports Main
begin

section \<open>Python strings\<close>

text \<open>
  The converter works on Python \<open>str\<close> values. They are modelled as \<open>string\<close>
  (lists of \<open>char\<close>), a \<open>char\<close> being a code point below 256: the whitespace
  characters, the line boundaries and the case mappings below are those of Python for
  these code points. Upper-casing leads out of this range for two of them, so its
  result is a list of characters of the following type.
\<close>

datatype uchar =
    Latin char    \<comment> \<open>a code point below 256\<close>
  | Beyond nat    \<comment> \<open>any other code point\<close>

definition isspace :: "char \<Rightarrow> bool" where
  \<comment> \<open>\<open>str.isspace\<close> on one character: TAB, LF, VT, FF, CR, FS, GS, RS, US, SPACE, NEL
      and the no-break space\<close>
  "isspace c = (c \<in> set [CHR 0x09, CHR 0x0A, CHR 0x0B, CHR 0x0C, CHR 0x0D,
                            CHR 0x1C, CHR 0x1D, CHR 0x1E, CHR 0x1F, CHR 0x20,
                            CHR 0x85, CHR 0xA0])"

definition lstrip :: "string \<Rightarrow> string" where
  "lstrip s = dropWhile isspace s"

definition rstrip :: "string \<Rightarrow> string" where
  "rstrip s = rev (dropWhile isspace (rev s))"

definition strip :: "string \<Rightarrow> string" where
  \<comment> \<open>\<open>s.strip()\<close>\<close>
  "strip s = rstrip (lstrip s)"

definition lower_letters :: string where
  \<comment> \<open>the letters with an upper case below 256: a to z, and 0xE0 to 0xFE without 0xF7\<close>
  "lower_letters = ''abcdefghijklmnopqrstuvwxyz'' @
     [CHR 0xE0, CHR 0xE1, CHR 0xE2, CHR 0xE3, CHR 0xE4, CHR 0xE5, CHR 0xE6, CHR 0xE7,
      CHR 0xE8, CHR 0xE9, CHR 0xEA, CHR 0xEB, CHR 0xEC, CHR 0xED, CHR 0xEE, CHR 0xEF,
      CHR 0xF0, CHR 0xF1, CHR 0xF2, CHR 0xF3, CHR 0xF4, CHR 0xF5, CHR 0xF6, CHR 0xF8,
      CHR 0xF9, CHR 0xFA, CHR 0xFB, CHR 0xFC, CHR 0xFD, CHR 0xFE]"

definition upper_letters :: string where
  \<comment> \<open>their upper case, in the same order: A to Z, and 0xC0 to 0xDE without 0xD7\<close>
  "upper_letters = ''ABCDEFGHIJKLMNOPQRSTUVWXYZ'' @
     [CHR 0xC0, CHR 0xC1, CHR 0xC2, CHR 0xC3, CHR 0xC4, CHR 0xC5, CHR 0xC6, CHR 0xC7,
      CHR 0xC8, CHR 0xC9, CHR 0xCA, CHR 0xCB, CHR 0xCC, CHR 0xCD, CHR 0xCE, CHR 0xCF,
      CHR 0xD0, CHR 0xD1, CHR 0xD2, CHR 0xD3, CHR 0xD4, CHR 0xD5, CHR 0xD6, CHR 0xD8,
      CHR 0xD9, CHR 0xDA, CHR 0xDB, CHR 0xDC, CHR 0xDD, CHR 0xDE]"

definition upper_char :: "char \<Rightarrow> uchar list" where
  \<comment> \<open>\<open>c.upper()\<close>: the sharp s (0xDF) becomes SS; the upper case of the micro sign (0xB5)
      is U+039C and that of 0xFF is U+0178\<close>
  "upper_char c =
     (if c = CHR 0xDF then [Latin CHR ''S'', Latin CHR ''S'']
      else if c = CHR 0xB5 then [Beyond 924]
      else if c = CHR 0xFF then [Beyond 376]
      else [Latin (case map_of (zip lower_letters upper_letters) c of
                     Some u \<Rightarrow> u | None \<Rightarrow> c)])"

definition lower_char :: "char \<Rightarrow> char" where
  "lower_char c =
     (case map_of (zip upper_letters lower_letters) c of Some l \<Rightarrow> l | None \<Rightarrow> c)"

definition upper :: "string \<Rightarrow> uchar list" where
  \<comment> \<open>\<open>s.upper()\<close>\<close>
  "upper s = concat (map upper_char s)"

definition lower :: "string \<Rightarrow> string" where
  \<comment> \<open>\<open>s.lower()\<close>\<close>
  "lower s = map lower_char s"

definition narrow :: "uchar list \<Rightarrow> string option" where
  \<comment> \<open>the text as a \<open>string\<close>, when all its characters are below 256\<close>
  "narrow us =
     (if list_ex (\<lambda>u. case u of Latin c \<Rightarrow> False | Beyond n \<Rightarrow> True) us then None
      else Some (concat (map (\<lambda>u. case u of Latin c \<Rightarrow> [c] | Beyond n \<Rightarrow> []) us)))"

section \<open>Day-letter decoding\<close>

definition mapping :: "(char \<times> string) list" where
  \<comment> \<open>the dict literal of \<open>parseDays\<close>\<close>
  "mapping = [(CHR ''M'', ''MO''), (CHR ''T'', ''TU''), (CHR ''W'', ''WE''),
              (CHR ''R'', ''TH''), (CHR ''F'', ''FR''), (CHR ''S'', ''SA''),
              (CHR ''U'', ''SU'')]"

definition mapping_get :: "uchar \<Rightarrow> string option" where
  \<comment> \<open>\<open>mapping[ch]\<close> if \<open>ch in mapping\<close>; all keys are below 256\<close>
  "mapping_get ch = (case ch of Latin c \<Rightarrow> map_of mapping c | Beyond n \<Rightarrow> None)"

fun parseDays_loop :: "uchar list \<Rightarrow> string list \<Rightarrow> string list" where
  \<comment> \<open>the \<open>for ch in ...\<close> loop of \<open>parseDays\<close>, appending to \<open>result\<close>\<close>
  "parseDays_loop [] result = result"
| "parseDays_loop (ch # rest) result =
     (case mapping_get ch of
        Some tok \<Rightarrow> parseDays_loop rest (result @ [tok])
      | None \<Rightarrow> parseDays_loop rest result)"

definition parseDays :: "string \<Rightarrow> string list" where
  "parseDays daysStr = parseDays_loop (upper (strip daysStr)) []"

text \<open>
  The table of the specification, read case-insensitively: one weekday token per
  recognised letter (MO is Monday, TU Tuesday, WE Wednesday, TH Thursday, FR Friday,
  SA Saturday, SU Sunday), nothing for any other character.
\<close>

definition day_of_letter :: "char \<Rightarrow> string option" where
  "day_of_letter c =
     (if c = CHR ''M'' \<or> c = CHR ''m'' then Some ''MO''
      else if c = CHR ''T'' \<or> c = CHR ''t'' then Some ''TU''
      else if c = CHR ''W'' \<or> c = CHR ''w'' then Some ''WE''
      else if c = CHR ''R'' \<or> c = CHR ''r'' then Some ''TH''
      else if c = CHR ''F'' \<or> c = CHR ''f'' then Some ''FR''
      else if c = CHR ''S'' \<or> c = CHR ''s'' then Some ''SA''
      else if c = CHR ''U'' \<or> c = CHR ''u'' then Some ''SU''
      else None)"

text \<open>
  What one character of the input contributes: the token of its letter, Saturday twice
  for the sharp s, whose upper case is SS, and nothing for any other character.
\<close>

definition day_tokens :: "char \<Rightarrow> string list" where
  "day_tokens c =
     (case day_of_letter c of
        Some tok \<Rightarrow> [tok]
      | None \<Rightarrow> if c = CHR 0xDF then [''SA'', ''SA''] else [])"

section \<open>Calendar dates\<close>

text \<open>
  The exceptions of Python that the converter can meet.
\<close>

datatype py_error = ValueError | IndexError | OverflowError | AttributeError

text \<open>
  A \<open>datetime.date\<close>: year, month and day of the proleptic Gregorian calendar, with
  the arithmetic of the standard library. A date exists for the years 1 to 9999 only.
\<close>

record date =
  year :: nat
  month :: nat
  day :: nat

definition is_leap :: "nat \<Rightarrow> bool" where
  "is_leap y = (y mod 4 = 0 \<and> (if y mod 100 = 0 then y mod 400 = 0 else True))"

definition DAYS_IN_MONTH :: "nat list" where
  \<comment> \<open>index 0 is a placeholder that is never read\<close>
  "DAYS_IN_MONTH = [0, 31, 28, 31, 30, 31, 30, 31, 31, 30, 31, 30, 31]"

definition DAYS_BEFORE_MONTH :: "nat list" where
  "DAYS_BEFORE_MONTH = [0, 0, 31, 59, 90, 120, 151, 181, 212, 243, 273, 304, 334]"

definition days_in_month :: "nat \<Rightarrow> nat \<Rightarrow> nat" where
  "days_in_month y m = (if m = 2 \<and> is_leap y then 29 else DAYS_IN_MONTH ! m)"

definition days_before_year :: "nat \<Rightarrow> nat" where
  "days_before_year y =
     (let p = y - 1 in p * 365 + p div 4 - p div 100 + p div 400)"

definition days_before_month :: "nat \<Rightarrow> nat \<Rightarrow> nat" where
  "days_before_month y m =
     DAYS_BEFORE_MONTH ! m + (if m > 2 \<and> is_leap y then 1 else 0)"

definition valid_date :: "date \<Rightarrow> bool" where
  \<comment> \<open>the range check of the \<open>date\<close> constructor\<close>
  "valid_date d =
     (1 \<le> year d \<and> year d \<le> 9999 \<and> 1 \<le> month d \<and> month d \<le> 12 \<and>
      1 \<le> day d \<and> day d \<le> days_in_month (year d) (month d))"

definition new_date :: "nat \<Rightarrow> nat \<Rightarrow> nat \<Rightarrow> py_error + date" where
  \<comment> \<open>\<open>datetime.date(y, m, d)\<close>, which raises \<open>ValueError\<close> outside the calendar\<close>
  "new_date y m d =
     (let r = \<lparr>year = y, month = m, day = d\<rparr>
      in if valid_date r then Inr r else Inl ValueError)"

definition toordinal :: "date \<Rightarrow> nat" where
  "toordinal d =
     days_before_year (year d) + days_before_month (year d) (month d) + day d"

definition weekday :: "date \<Rightarrow> nat" where
  \<comment> \<open>Monday is 0, Sunday is 6\<close>
  "weekday d = (toordinal d + 6) mod 7"

definition MAXORDINAL :: nat where
  \<comment> \<open>the ordinal of 9999-12-31\<close>
  "MAXORDINAL = 3652059"

definition next_day :: "date \<Rightarrow> date" where
  \<comment> \<open>the date whose ordinal is one more (\<open>date.fromordinal (toordinal d + 1)\<close>)\<close>
  "next_day d =
     (if day d < days_in_month (year d) (month d) then d\<lparr>day := day d + 1\<rparr>
      else if month d < 12 then d\<lparr>month := month d + 1, day := 1\<rparr>
      else \<lparr>year = year d + 1, month = 1, day = 1\<rparr>)"

definition add_day :: "date \<Rightarrow> py_error + date" where
  \<comment> \<open>\<open>d + datetime.timedelta(days=1)\<close>: \<open>OverflowError\<close> beyond the last date\<close>
  "add_day d =
     (let ord = toordinal d + 1
      in if 0 < ord \<and> ord \<le> MAXORDINAL then Inr (next_day d) else Inl OverflowError)"

section \<open>First-occurrence search\<close>

definition weekdayMapping :: "(string \<times> nat) list" where
  "weekdayMapping = [(''MO'', 0), (''TU'', 1), (''WE'', 2), (''TH'', 3), (''FR'', 4),
                     (''SA'', 5), (''SU'', 6)]"

definition targetWeekdays :: "string list \<Rightarrow> nat list" where
  \<comment> \<open>\<open>[weekdayMapping[day] for day in bydayList if day in weekdayMapping]\<close>\<close>
  "targetWeekdays bydayList = List.map_filter (map_of weekdayMapping) bydayList"

fun getFirstOccurrence_loop :: "nat \<Rightarrow> nat list \<Rightarrow> date \<Rightarrow> date \<Rightarrow> py_error + date" where
  \<comment> \<open>the remaining rounds of \<open>for _ in range(7)\<close>, and \<open>return startDate\<close> after them\<close>
  "getFirstOccurrence_loop 0 targets startDate current = Inr startDate"
| "getFirstOccurrence_loop (Suc n) targets startDate current =
     (if weekday current \<in> set targets then Inr current
      else case add_day current of
             Inl e \<Rightarrow> Inl e
           | Inr c \<Rightarrow> getFirstOccurrence_loop n targets startDate c)"

definition getFirstOccurrence :: "date \<Rightarrow> string list \<Rightarrow> py_error + date" where
  "getFirstOccurrence startDate bydayList =
     getFirstOccurrence_loop 7 (targetWeekdays bydayList) startDate startDate"

text \<open>The date \<open>k\<close> days after \<open>d\<close>.\<close>

fun plus_days :: "date \<Rightarrow> nat \<Rightarrow> date" where
  "plus_days d 0 = d"
| "plus_days d (Suc k) = plus_days (next_day d) k"

section \<open>Splitting and joining\<close>

function split_from :: "string \<Rightarrow> string \<Rightarrow> string \<Rightarrow> string list" where
  \<comment> \<open>scan for the next occurrence of the separator, left to right; \<open>cur\<close> is the part read so far\<close>
  "split_from sep cur [] = [cur]"
| "split_from sep cur (c # cs) =
     (if sep \<noteq> [] \<and> take (length sep) (c # cs) = sep
      then cur # split_from sep [] (drop (length sep) (c # cs))
      else split_from sep (cur @ [c]) cs)"
  by pat_completeness auto
termination
  by (relation "measure (\<lambda>(sep, cur, s). length s)") auto

definition split :: "string \<Rightarrow> string \<Rightarrow> string list" where
  \<comment> \<open>\<open>s.split(sep)\<close> for a separator that is not empty\<close>
  "split s sep = split_from sep [] s"

fun join :: "string \<Rightarrow> string list \<Rightarrow> string" where
  \<comment> \<open>\<open>sep.join(xs)\<close>\<close>
  "join sep [] = []"
| "join sep [x] = x"
| "join sep (x # y # ys) = x @ sep @ join sep (y # ys)"

definition unpack2 :: "'a list \<Rightarrow> py_error + ('a \<times> 'a)" where
  \<comment> \<open>\<open>a, b = xs\<close>: \<open>ValueError\<close> unless the list has exactly two elements\<close>
  "unpack2 xs = (case xs of [a, b] \<Rightarrow> Inr (a, b) | _ \<Rightarrow> Inl ValueError)"

section \<open>The regular expressions of \<open>strptime\<close>\<close>

text \<open>
  \<open>datetime.strptime\<close> turns the format into a regular expression, takes the first
  match of it at the start of the text, in the order in which a backtracking matcher
  finds matches, and raises \<open>ValueError\<close> when there is none or when the match leaves
  text over. A pattern is modelled by the list of its matches in that order, each with
  the value read and the rest of the text. Month names and AM/PM are those of the
  C locale; the pattern ignores case.
\<close>

type_synonym 'a rx = "string \<Rightarrow> ('a \<times> string) list"

definition rx_ret :: "'a \<Rightarrow> 'a rx" where
  "rx_ret a s = [(a, s)]"

definition rx_alt :: "'a rx \<Rightarrow> 'a rx \<Rightarrow> 'a rx" where
  \<comment> \<open>\<open>p|q\<close>: the matches of \<open>p\<close> come first\<close>
  "rx_alt p q s = p s @ q s"

definition rx_seq :: "'a rx \<Rightarrow> ('a \<Rightarrow> 'b rx) \<Rightarrow> 'b rx" where
  \<comment> \<open>\<open>p\<close> followed by \<open>q\<close>\<close>
  "rx_seq p q s = concat (map (\<lambda>(a, r). q a r) (p s))"

definition digit_val :: "char \<Rightarrow> nat option" where
  "digit_val c = map_of (zip ''0123456789'' [0, 1, 2, 3, 4, 5, 6, 7, 8, 9]) c"

definition rx_digit :: "nat \<Rightarrow> nat \<Rightarrow> nat rx" where
  \<comment> \<open>one digit between \<open>lo\<close> and \<open>hi\<close>, as in \<open>[1-9]\<close>\<close>
  "rx_digit lo hi s =
     (case s of
        [] \<Rightarrow> []
      | c # r \<Rightarrow> (case digit_val c of
                    None \<Rightarrow> []
                  | Some v \<Rightarrow> if lo \<le> v \<and> v \<le> hi then [(v, r)] else []))"

definition rx_two :: "nat rx \<Rightarrow> nat rx \<Rightarrow> nat rx" where
  \<comment> \<open>two digits, read as a decimal number\<close>
  "rx_two p q = rx_seq p (\<lambda>a. rx_seq q (\<lambda>b. rx_ret (10 * a + b)))"

definition rx_char :: "char \<Rightarrow> unit rx" where
  "rx_char x s = (case s of [] \<Rightarrow> [] | c # r \<Rightarrow> if c = x then [((), r)] else [])"

fun rx_spaces :: "unit rx" where
  \<comment> \<open>\<open>\s+\<close>, the longest run first\<close>
  "rx_spaces [] = []"
| "rx_spaces (c # r) = (if isspace c then rx_spaces r @ [((), r)] else [])"

definition rx_word :: "string \<Rightarrow> 'a \<Rightarrow> 'a rx" where
  \<comment> \<open>a word in lower case, matched without regard to case\<close>
  "rx_word w a s =
     (if lower (take (length w) s) = w then [(a, drop (length w) s)] else [])"

definition re_m :: "nat rx" where
  \<comment> \<open>\<open>%m\<close> and \<open>%I\<close>: \<open>1[0-2]|0[1-9]|[1-9]\<close>\<close>
  "re_m = rx_alt (rx_two (rx_digit 1 1) (rx_digit 0 2))
            (rx_alt (rx_two (rx_digit 0 0) (rx_digit 1 9)) (rx_digit 1 9))"

definition re_d :: "nat rx" where
  \<comment> \<open>\<open>%d\<close>: \<open>3[0-1]|[1-2]\d|0[1-9]|[1-9]| [1-9]\<close>\<close>
  "re_d = rx_alt (rx_two (rx_digit 3 3) (rx_digit 0 1))
            (rx_alt (rx_two (rx_digit 1 2) (rx_digit 0 9))
               (rx_alt (rx_two (rx_digit 0 0) (rx_digit 1 9))
                  (rx_alt (rx_digit 1 9)
                     (rx_seq (rx_char CHR '' '') (\<lambda>_. rx_digit 1 9)))))"

definition re_Y :: "nat rx" where
  \<comment> \<open>\<open>%Y\<close>: \<open>\d\d\d\d\<close>\<close>
  "re_Y = rx_seq (rx_two (rx_digit 0 9) (rx_digit 0 9))
            (\<lambda>a. rx_seq (rx_two (rx_digit 0 9) (rx_digit 0 9)) (\<lambda>b. rx_ret (100 * a + b)))"

definition re_M :: "nat rx" where
  \<comment> \<open>\<open>%M\<close>: \<open>[0-5]\d|\d\<close>\<close>
  "re_M = rx_alt (rx_two (rx_digit 0 5) (rx_digit 0 9)) (rx_digit 0 9)"

definition re_b :: "nat rx" where
  \<comment> \<open>\<open>%b\<close>: the abbreviated month names, with the number of the month\<close>
  "re_b = foldr (\<lambda>(w, n). rx_alt (rx_word w n))
            (zip [''jan'', ''feb'', ''mar'', ''apr'', ''may'', ''jun'',
                  ''jul'', ''aug'', ''sep'', ''oct'', ''nov'', ''dec'']
                 [1, 2, 3, 4, 5, 6, 7, 8, 9, 10, 11, 12])
            (\<lambda>s. [])"

definition re_p :: "bool rx" where
  \<comment> \<open>\<open>%p\<close>: \<open>am|pm\<close>; the value tells whether it is PM\<close>
  "re_p = rx_alt (rx_word ''am'' False) (rx_word ''pm'' True)"

record datetime =
  date_of :: date
  hour :: nat
  minute :: nat
  second :: nat
  tzinfo :: "string option"

datatype format =
    MDY      \<comment> \<open>\<open>"%m/%d/%Y"\<close>\<close>
  | BDY      \<comment> \<open>\<open>"%b %d, %Y"\<close>\<close>
  | MDY_IMP  \<comment> \<open>\<open>"%m/%d/%Y %I:%M %p"\<close>\<close>

definition hour12 :: "nat \<Rightarrow> bool \<Rightarrow> nat" where
  \<comment> \<open>the hour of the day from \<open>%I\<close> and \<open>%p\<close>\<close>
  "hour12 h pm = (if pm then (if h \<noteq> 12 then h + 12 else h) else (if h = 12 then 0 else h))"

fun format_regex :: "format \<Rightarrow> (nat \<times> nat \<times> nat \<times> nat \<times> nat) rx" where
  \<comment> \<open>the matches, as year, month, day, hour and minute\<close>
  "format_regex MDY =
     rx_seq re_m (\<lambda>m. rx_seq (rx_char CHR ''/'') (\<lambda>_. rx_seq re_d (\<lambda>d.
     rx_seq (rx_char CHR ''/'') (\<lambda>_. rx_seq re_Y (\<lambda>y. rx_ret (y, m, d, 0, 0))))))"
| "format_regex BDY =
     rx_seq re_b (\<lambda>m. rx_seq rx_spaces (\<lambda>_. rx_seq re_d (\<lambda>d.
     rx_seq (rx_char CHR '','') (\<lambda>_. rx_seq rx_spaces (\<lambda>_. rx_seq re_Y (\<lambda>y.
     rx_ret (y, m, d, 0, 0)))))))"
| "format_regex MDY_IMP =
     rx_seq re_m (\<lambda>m. rx_seq (rx_char CHR ''/'') (\<lambda>_. rx_seq re_d (\<lambda>d.
     rx_seq (rx_char CHR ''/'') (\<lambda>_. rx_seq re_Y (\<lambda>y. rx_seq rx_spaces (\<lambda>_.
     rx_seq re_m (\<lambda>h. rx_seq (rx_char CHR '':'') (\<lambda>_. rx_seq re_M (\<lambda>mi.
     rx_seq rx_spaces (\<lambda>_. rx_seq re_p (\<lambda>pm.
     rx_ret (y, m, d, hour12 h pm, mi))))))))))))"

definition strptime :: "string \<Rightarrow> format \<Rightarrow> py_error + datetime" where
  \<comment> \<open>\<open>datetime.datetime.strptime(data_string, format)\<close>\<close>
  "strptime data_string fmt =
     (case format_regex fmt data_string of
        [] \<Rightarrow> Inl ValueError
      | ((y, m, d, h, mi), rest) # _ \<Rightarrow>
          if rest \<noteq> [] then Inl ValueError
          else (case new_date y m d of
                  Inl e \<Rightarrow> Inl e
                | Inr dt \<Rightarrow> Inr \<lparr>date_of = dt, hour = h, minute = mi, second = 0,
                                 tzinfo = None\<rparr>))"

section \<open>Date ranges and time ranges\<close>

definition parseDateRange_try :: "format \<Rightarrow> string \<Rightarrow> string \<Rightarrow> py_error + (date \<times> date)" where
  \<comment> \<open>the body of the inner \<open>try\<close>: both sides under one format\<close>
  "parseDateRange_try fmt startStr endStr =
     (case strptime startStr fmt of
        Inl e \<Rightarrow> Inl e
      | Inr s \<Rightarrow> (case strptime endStr fmt of
                    Inl e \<Rightarrow> Inl e
                  | Inr e \<Rightarrow> Inr (date_of s, date_of e)))"

fun parseDateRange_loop :: "format list \<Rightarrow> string \<Rightarrow> string \<Rightarrow> py_error + (date \<times> date) option" where
  \<comment> \<open>\<open>for fmt in (...)\<close>: a \<open>ValueError\<close> moves on to the next format, \<open>None\<close> after the last\<close>
  "parseDateRange_loop [] startStr endStr = Inr None"
| "parseDateRange_loop (fmt # fmts) startStr endStr =
     (case parseDateRange_try fmt startStr endStr of
        Inr r \<Rightarrow> Inr (Some r)
      | Inl ValueError \<Rightarrow> parseDateRange_loop fmts startStr endStr
      | Inl e \<Rightarrow> Inl e)"

definition parseDateRange :: "string \<Rightarrow> (date \<times> date) option" where
  \<comment> \<open>\<open>None\<close> stands for the pair \<open>(None, None)\<close>; the outer handler catches every exception\<close>
  "parseDateRange dateRangeStr =
     (case unpack2 (map strip (split dateRangeStr ''-'')) of
        Inl e \<Rightarrow> None
      | Inr (startStr, endStr) \<Rightarrow>
          (case parseDateRange_loop [MDY, BDY] startStr endStr of
             Inl e \<Rightarrow> None
           | Inr r \<Rightarrow> r))"

definition digit_char :: "nat \<Rightarrow> char" where
  "digit_char n = ''0123456789'' ! (n mod 10)"

definition dec2 :: "nat \<Rightarrow> string" where
  \<comment> \<open>two decimal digits, zero-padded\<close>
  "dec2 n = [digit_char (n div 10), digit_char n]"

definition dec4 :: "nat \<Rightarrow> string" where
  \<comment> \<open>four decimal digits, zero-padded\<close>
  "dec4 n = dec2 (n div 100) @ dec2 n"

text \<open>
  \<open>strftime\<close> prints the year with four digits, as the documentation of \<open>%Y\<close> has it
  (0001 to 9999); a C library that leaves out the leading zeros differs for the years
  below 1000 only.
\<close>

definition strftime_mdY :: "date \<Rightarrow> string" where
  \<comment> \<open>\<open>d.strftime('%m/%d/%Y')\<close>, the year with four digits as documented\<close>
  "strftime_mdY d = dec2 (month d) @ ''/'' @ dec2 (day d) @ ''/'' @ dec4 (year d)"

definition strptime_text :: "uchar list \<Rightarrow> format \<Rightarrow> py_error + datetime" where
  \<comment> \<open>\<open>strptime\<close> on a text that may hold a character beyond 255: such a character is
      no digit, no whitespace and no letter of a month name or of AM and PM, so that no
      match reaches the end of the text\<close>
  "strptime_text data_string fmt =
     (case narrow data_string of
        None \<Rightarrow> Inl ValueError
      | Some s \<Rightarrow> strptime s fmt)"

definition parseTimeRange :: "string \<Rightarrow> date \<Rightarrow> string \<Rightarrow> (datetime \<times> datetime) option" where
  \<comment> \<open>\<open>None\<close> stands for the pair \<open>(None, None)\<close>; the handler catches every exception\<close>
  "parseTimeRange timeStr eventDate tz =
     (case unpack2 (map (\<lambda>s. upper (strip s)) (split timeStr ''-'')) of
        Inl e \<Rightarrow> None
      | Inr (startTimeStr, endTimeStr) \<Rightarrow>
          (case strptime_text (map Latin (strftime_mdY eventDate @ '' '') @ startTimeStr)
                  MDY_IMP of
             Inl e \<Rightarrow> None
           | Inr startDT \<Rightarrow>
               (case strptime_text (map Latin (strftime_mdY eventDate @ '' '') @ endTimeStr)
                       MDY_IMP of
                  Inl e \<Rightarrow> None
                | Inr endDT \<Rightarrow>
                    Some (startDT\<lparr>tzinfo := Some tz\<rparr>, endDT\<lparr>tzinfo := Some tz\<rparr>))))"

definition formatDateTime :: "datetime \<Rightarrow> string" where
  \<comment> \<open>\<open>dt.strftime("%Y%m%dT%H%M%S")\<close>\<close>
  "formatDateTime dt =
     dec4 (year (date_of dt)) @ dec2 (month (date_of dt)) @ dec2 (day (date_of dt)) @ ''T'' @
     dec2 (hour dt) @ dec2 (minute dt) @ dec2 (second dt)"

definition instant_before :: "datetime \<Rightarrow> datetime \<Rightarrow> bool" where
  \<comment> \<open>\<open>a < b\<close> for two date-times of the same zone: the order of the wall clock\<close>
  "instant_before a b =
     (toordinal (date_of a) * 86400 + hour a * 3600 + minute a * 60 + second a
      < toordinal (date_of b) * 86400 + hour b * 3600 + minute b * 60 + second b)"

section \<open>Course records\<close>

record Course =
  className :: string
  instructor :: string
  meetingType :: string
  time :: string
  days :: string
  location :: string
  dateRange :: string

definition Course_init ::
  "string \<Rightarrow> string option \<Rightarrow> string \<Rightarrow> string \<Rightarrow> string \<Rightarrow> string \<Rightarrow> string \<Rightarrow> Course" where
  \<comment> \<open>\<open>Course.__init__\<close>; the instructor may be \<open>None\<close>\<close>
  "Course_init cn ins mt tm ds loc dr =
     \<lparr>className = cn,
      instructor = (case ins of None \<Rightarrow> ''TBA'' | Some i \<Rightarrow> if i \<noteq> [] then i else ''TBA''),
      meetingType = lower mt,
      time = tm,
      days = ds,
      location = (if loc \<noteq> [] then loc else ''TBA''),
      dateRange = dr\<rparr>"

section \<open>Generating the calendar\<close>

definition title_char :: "char \<Rightarrow> string" where
  \<comment> \<open>the title case of a first character: its upper case, and Ss for the sharp s. The
      title case of 0xB5 and of 0xFF lies beyond 255 and has no place in a \<open>string\<close>: these
      two characters are kept as they are.\<close>
  "title_char c =
     (if c = CHR 0xDF then ''Ss''
      else [case map_of (zip lower_letters upper_letters) c of Some u \<Rightarrow> u | None \<Rightarrow> c])"

definition capitalize :: "string \<Rightarrow> string" where
  \<comment> \<open>\<open>s.capitalize()\<close>\<close>
  "capitalize s = (case s of [] \<Rightarrow> [] | c # cs \<Rightarrow> title_char c @ lower cs)"

definition generateVTimezone :: "string \<Rightarrow> string" where
  "generateVTimezone tzid = join [CHR 0x0A]
     [''BEGIN:VTIMEZONE'',
      ''TZID:'' @ tzid,
      ''X-LIC-LOCATION:America/New_York'',
      ''BEGIN:DAYLIGHT'',
      ''TZOFFSETFROM:-0500'',
      ''TZOFFSETTO:-0400'',
      ''TZNAME:EDT'',
      ''DTSTART:19700308T020000'',
      ''RRULE:FREQ=YEARLY;BYMONTH=3;BYDAY=2SU'',
      ''END:DAYLIGHT'',
      ''BEGIN:STANDARD'',
      ''TZOFFSETFROM:-0400'',
      ''TZOFFSETTO:-0500'',
      ''TZNAME:EST'',
      ''DTSTART:19701101T020000'',
      ''RRULE:FREQ=YEARLY;BYMONTH=11;BYDAY=1SU'',
      ''END:STANDARD'',
      ''END:VTIMEZONE'']"

definition tzid :: string where
  "tzid = ''America/New_York''"

definition combine :: "date \<Rightarrow> datetime \<Rightarrow> datetime" where
  \<comment> \<open>\<open>datetime.combine(d, dt.timetz())\<close>: the date \<open>d\<close> with the clock time and zone of \<open>dt\<close>\<close>
  "combine d dt = dt\<lparr>date_of := d\<rparr>"

definition course_event :: "string \<Rightarrow> string \<Rightarrow> Course \<Rightarrow> py_error + string list option" where
  \<comment> \<open>one round of the loop over the courses: \<open>None\<close> is \<open>continue\<close>, otherwise the
      lines appended; \<open>uid4\<close> is the value of \<open>uuid.uuid4()\<close>, read only when the
      record is kept\<close>
  "course_event dtStamp uid4 course =
     (if dateRange course = ''TBA'' \<or> time course = ''TBA'' \<or> days course = ''TBA''
      then Inr None
      else case parseDateRange (dateRange course) of
        None \<Rightarrow> Inr None
      | Some (startDate, endDate) \<Rightarrow>
          (let bydayList = parseDays (days course) in
           if bydayList = [] then Inr None
           else case getFirstOccurrence startDate bydayList of
             Inl e \<Rightarrow> Inl e
           | Inr firstOccurrenceDate \<Rightarrow>
               (case parseTimeRange (time course) firstOccurrenceDate tzid of
                  None \<Rightarrow> Inr None
                | Some (startDT, endDT) \<Rightarrow>
                    (let untilDT = (combine endDate startDT)\<lparr>tzinfo := Some tzid\<rparr>;
                         rrule = ''FREQ=WEEKLY;UNTIL='' @ formatDateTime untilDT @
                                 '';BYDAY='' @ join '','' bydayList;
                         uid = uid4 @ ''@coursecalendar'';
                         description = ''Type: '' @ capitalize (meetingType course) @
                                       [CHR 0x5C, CHR ''n''] @ ''Instructor: '' @
                                       instructor course
                     in Inr (Some
                          [''BEGIN:VEVENT'',
                           ''UID:'' @ uid,
                           ''DTSTAMP:'' @ dtStamp,
                           ''DTSTART;TZID='' @ tzid @ '':'' @ formatDateTime startDT,
                           ''DTEND;TZID='' @ tzid @ '':'' @ formatDateTime endDT,
                           ''RRULE:'' @ rrule,
                           ''SUMMARY:'' @ className course,
                           ''DESCRIPTION:'' @ description,
                           ''LOCATION:'' @ location course,
                           ''END:VEVENT''])))))"

fun generateICS_loop ::
  "string \<Rightarrow> (nat \<Rightarrow> string) \<Rightarrow> Course list \<Rightarrow> nat \<Rightarrow> string list \<Rightarrow> py_error + string list" where
  \<comment> \<open>\<open>for course in courses\<close>, with the lines so far and the number of identifiers drawn\<close>
  "generateICS_loop dtStamp uuid4 [] n lines = Inr lines"
| "generateICS_loop dtStamp uuid4 (course # courses) n lines =
     (case course_event dtStamp (uuid4 n) course of
        Inl e \<Rightarrow> Inl e
      | Inr None \<Rightarrow> generateICS_loop dtStamp uuid4 courses n lines
      | Inr (Some event) \<Rightarrow> generateICS_loop dtStamp uuid4 courses (Suc n) (lines @ event))"

definition generateICS_lines ::
  "string \<Rightarrow> (nat \<Rightarrow> string) \<Rightarrow> Course list \<Rightarrow> string \<Rightarrow> py_error + string list" where
  \<comment> \<open>the list \<open>lines\<close> at the end of \<open>generateICS\<close>. The clock and the random identifiers
      are inputs: \<open>dtStamp\<close> is the formatted current time, \<open>uuid4 n\<close> the \<open>n\<close>-th identifier.\<close>
  "generateICS_lines dtStamp uuid4 courses calendarName =
     (case generateICS_loop dtStamp uuid4 courses 0
             [''BEGIN:VCALENDAR'',
              ''VERSION:2.0'',
              ''PRODID:-//Course ICS Converter//EN'',
              ''X-WR-CALNAME:'' @ calendarName,
              generateVTimezone tzid] of
        Inl e \<Rightarrow> Inl e
      | Inr lines \<Rightarrow> Inr (lines @ [''END:VCALENDAR'']))"

definition generateICS ::
  "string \<Rightarrow> (nat \<Rightarrow> string) \<Rightarrow> Course list \<Rightarrow> string \<Rightarrow> py_error + string" where
  "generateICS dtStamp uuid4 courses calendarName =
     (case generateICS_lines dtStamp uuid4 courses calendarName of
        Inl e \<Rightarrow> Inl e
      | Inr lines \<Rightarrow> Inr (join [CHR 0x0A] lines))"

text \<open>
  The date-range resolution in the words of the specification: the text must split on
  \<open>-\<close> into exactly two parts; both parts, trimmed, must parse under the same format;
  the numeric format is tried first, the format with the month name second.
\<close>

definition both_parse :: "format \<Rightarrow> string \<Rightarrow> string \<Rightarrow> (date \<times> date) option" where
  "both_parse fmt a b =
     (case strptime a fmt of
        Inl e \<Rightarrow> None
      | Inr x \<Rightarrow> (case strptime b fmt of Inl e \<Rightarrow> None | Inr y \<Rightarrow> Some (date_of x, date_of y)))"

definition date_range_spec :: "string \<Rightarrow> (date \<times> date) option" where
  "date_range_spec s =
     (case map strip (split s ''-'') of
        [a, b] \<Rightarrow> (case both_parse MDY a b of Some r \<Rightarrow> Some r | None \<Rightarrow> both_parse BDY a b)
      | _ \<Rightarrow> None)"








section \<open>Parsing the course text\<close>

definition is_linebreak :: "char \<Rightarrow> bool" where
  \<comment> \<open>the line boundaries of \<open>str.splitlines\<close> below 256: LF, VT, FF, CR, FS, GS, RS, NEL\<close>
  "is_linebreak c =
     (c \<in> set [CHR 0x0A, CHR 0x0B, CHR 0x0C, CHR 0x0D, CHR 0x1C, CHR 0x1D, CHR 0x1E,
                CHR 0x85])"

fun splitlines_from :: "string \<Rightarrow> string \<Rightarrow> string list" where
  \<comment> \<open>\<open>cur\<close> is the line read so far; CR LF is one boundary; no empty last line\<close>
  "splitlines_from cur [] = (if cur = [] then [] else [cur])"
| "splitlines_from cur [c] = (if is_linebreak c then [cur] else [cur @ [c]])"
| "splitlines_from cur (c # d # cs) =
     (if c = CHR 0x0D \<and> d = CHR 0x0A then cur # splitlines_from [] cs
      else if is_linebreak c then cur # splitlines_from [] (d # cs)
      else splitlines_from (cur @ [c]) (d # cs))"

definition splitlines :: "string \<Rightarrow> string list" where
  \<comment> \<open>\<open>s.splitlines()\<close>\<close>
  "splitlines s = splitlines_from [] s"

fun contains :: "string \<Rightarrow> string \<Rightarrow> bool" where
  \<comment> \<open>\<open>sub in s\<close>\<close>
  "contains sub [] = (sub = [])"
| "contains sub (c # cs) = (take (length sub) (c # cs) = sub \<or> contains sub cs)"

fun index :: "'a list \<Rightarrow> 'a \<Rightarrow> py_error + nat" where
  \<comment> \<open>\<open>xs.index(x)\<close>: \<open>ValueError\<close> when \<open>x\<close> is not in the list\<close>
  "index [] x = Inl ValueError"
| "index (y # ys) x =
     (if y = x then Inr 0
      else case index ys x of Inl e \<Rightarrow> Inl e | Inr i \<Rightarrow> Inr (Suc i))"

definition getitem :: "'a list \<Rightarrow> nat \<Rightarrow> py_error + 'a" where
  \<comment> \<open>\<open>xs[i]\<close> for an index that is not negative: \<open>IndexError\<close> out of range\<close>
  "getitem xs i = (if i < length xs then Inr (xs ! i) else Inl IndexError)"

function re_split_from :: "string \<Rightarrow> string \<Rightarrow> string list" where
  \<comment> \<open>cut at every run of two or more whitespace characters, the whole run at once\<close>
  "re_split_from cur [] = [cur]"
| "re_split_from cur (c # cs) =
     (if isspace c \<and> (case cs of [] \<Rightarrow> False | d # ds \<Rightarrow> isspace d)
      then cur # re_split_from [] (dropWhile isspace cs)
      else re_split_from (cur @ [c]) cs)"
  by pat_completeness auto
termination
  by (relation "measure (\<lambda>(cur, s). length s)") (auto simp: length_dropWhile_le le_imp_less_Suc)

definition re_split :: "string \<Rightarrow> string list" where
  \<comment> \<open>\<open>re.split(r'\s{2,}', s)\<close>\<close>
  "re_split s = re_split_from [] s"

text \<open>The five local variables that hold the schedule fields of a block.\<close>

record fields =
  f_timeVal :: string
  f_days :: string
  f_location :: string
  f_dateRange :: string
  f_meetingType :: string

definition lookup :: "string list \<Rightarrow> string list \<Rightarrow> string \<Rightarrow> py_error + string" where
  \<comment> \<open>\<open>data[headers.index(name)].strip()\<close>\<close>
  "lookup headers data name =
     (case index headers name of
        Inl e \<Rightarrow> Inl e
      | Inr i \<Rightarrow> (case getitem data i of Inl e \<Rightarrow> Inl e | Inr v \<Rightarrow> Inr (strip v)))"

definition try_headers :: "string list \<Rightarrow> string list \<Rightarrow> fields \<Rightarrow> py_error option \<times> fields" where
  \<comment> \<open>the body of the \<open>try\<close>: the five assignments in order, up to the first exception;
      the result is the exception, if any, and the variables at that moment\<close>
  "try_headers headers data fs =
     (case lookup headers data ''Time'' of
        Inl e \<Rightarrow> (Some e, fs)
      | Inr v1 \<Rightarrow>
     (let fs = fs\<lparr>f_timeVal := v1\<rparr> in
      case lookup headers data ''Days'' of
        Inl e \<Rightarrow> (Some e, fs)
      | Inr v2 \<Rightarrow>
     (let fs = fs\<lparr>f_days := v2\<rparr> in
      case lookup headers data ''Where'' of
        Inl e \<Rightarrow> (Some e, fs)
      | Inr v3 \<Rightarrow>
     (let fs = fs\<lparr>f_location := v3\<rparr> in
      case lookup headers data ''Date Range'' of
        Inl e \<Rightarrow> (Some e, fs)
      | Inr v4 \<Rightarrow>
     (let fs = fs\<lparr>f_dateRange := v4\<rparr> in
      case lookup headers data ''Schedule Type'' of
        Inl e \<Rightarrow> (Some e, fs)
      | Inr v5 \<Rightarrow> (None, fs\<lparr>f_meetingType := lower v5\<rparr>))))))"

definition by_position :: "string \<Rightarrow> fields \<Rightarrow> fields" where
  \<comment> \<open>the fallback on the column positions\<close>
  "by_position meetingInfoLine fs =
     (let parts = re_split meetingInfoLine
      in if length parts \<ge> 7
         then fs\<lparr>f_timeVal := strip (parts ! 1),
                 f_days := strip (parts ! 2),
                 f_location := strip (parts ! 3),
                 f_dateRange := strip (parts ! 4),
                 f_meetingType := lower (strip (parts ! 5))\<rparr>
         else fs)"

definition find_instructor :: "string list \<Rightarrow> string option" where
  \<comment> \<open>the loop over the lines for the instructor; the last line with the marker wins\<close>
  "find_instructor lines =
     foldl (\<lambda>instructor line.
              if contains ''Assigned Instructor:'' line
              then (let parts = split line ''Assigned Instructor:''
                    in Some (if length parts > 1 then strip (parts ! 1) else ''TBA''))
              else instructor)
       None lines"

fun find_scheduled :: "string list \<Rightarrow> nat \<Rightarrow> nat option" where
  \<comment> \<open>the index of the first line with the marker, counting from \<open>i\<close>\<close>
  "find_scheduled [] i = None"
| "find_scheduled (line # lines) i =
     (if contains ''Scheduled Meeting Times'' line then Some i
      else find_scheduled lines (Suc i))"

definition extract_fields :: "string option \<Rightarrow> string option \<Rightarrow> py_error + fields" where
  \<comment> \<open>from \<open>timeVal = days = ... = "TBA"\<close> to the end of \<open>if meetingInfoLine:\<close>\<close>
  "extract_fields headerLine meetingInfoLine =
     (let fs = \<lparr>f_timeVal = ''TBA'', f_days = ''TBA'', f_location = ''TBA'',
                f_dateRange = ''TBA'', f_meetingType = ''TBA''\<rparr>
      in case meetingInfoLine of
           None \<Rightarrow> Inr fs
         | Some info \<Rightarrow>
             if info = [] then Inr fs
             else if contains [CHR 0x09] info
             then (case headerLine of
                     None \<Rightarrow> Inl AttributeError
                   | Some header \<Rightarrow>
                       (case try_headers (split header [CHR 0x09]) (split info [CHR 0x09]) fs of
                          (None, fs') \<Rightarrow> Inr fs'
                        | (Some ValueError, fs') \<Rightarrow> Inr (by_position info fs')
                        | (Some e, fs') \<Rightarrow> Inl e))
             else Inr (by_position info fs))"

definition parseBlock :: "string \<Rightarrow> py_error + Course option" where
  \<comment> \<open>one round of the loop over the blocks; \<open>None\<close> is \<open>continue\<close>\<close>
  "parseBlock block =
     (let lines = splitlines (strip block)
      in if lines = [] then Inr None
         else
           (let className = strip (lines ! 0);
                instructor = find_instructor lines;
                scheduledIndex = find_scheduled lines 0;
                headerLine =
                  (case scheduledIndex of
                     None \<Rightarrow> None
                   | Some i \<Rightarrow> if i + 1 < length lines then Some (strip (lines ! (i + 1)))
                               else None);
                meetingInfoLine =
                  (case scheduledIndex of
                     None \<Rightarrow> None
                   | Some i \<Rightarrow> if i + 2 < length lines then Some (strip (lines ! (i + 2)))
                               else None)
            in case extract_fields headerLine meetingInfoLine of
                 Inl e \<Rightarrow> Inl e
               | Inr fs \<Rightarrow>
                   Inr (Some (Course_init className instructor (f_meetingType fs)
                                (f_timeVal fs) (f_days fs) (f_location fs) (f_dateRange fs)))))"

fun parseCourses_loop :: "string list \<Rightarrow> Course list \<Rightarrow> py_error + Course list" where
  \<comment> \<open>\<open>for block in blocks\<close>, appending to \<open>courses\<close>\<close>
  "parseCourses_loop [] courses = Inr courses"
| "parseCourses_loop (block # blocks) courses =
     (case parseBlock block of
        Inl e \<Rightarrow> Inl e
      | Inr None \<Rightarrow> parseCourses_loop blocks courses
      | Inr (Some course) \<Rightarrow> parseCourses_loop blocks (courses @ [course]))"

definition parseCourses :: "string \<Rightarrow> py_error + Course list" where
  "parseCourses text = parseCourses_loop (split (strip text) [CHR 0x0A, CHR 0x0A]) []"

text \<open>
  Course texts for the examples, written as lines of tab-separated cells: a block whose
  data line stops after the second cell, a block with an empty cell under \<open>Time\<close>, a
  block whose header line has no \<open>Days\<close> column, and a text of two blocks.
\<close>

definition header_row :: string where
  "header_row = join [CHR 0x09] [''Type'', ''Time'', ''Days'', ''Where'', ''Date Range'',
                                 ''Schedule Type'', ''Instructors'']"

definition block_short_row :: string where
  "block_short_row = join [CHR 0x0A]
     [''COMP 1406 B'',
      ''Scheduled Meeting Times'',
      header_row,
      join [CHR 0x09] [''Class'', ''9:30 am - 10:45 am'']]"

definition block_empty_cell :: string where
  "block_empty_cell = join [CHR 0x0A]
     [''COMP 1405 A'',
      ''Assigned Instructor: Ada Lovelace'',
      ''Scheduled Meeting Times'',
      header_row,
      join [CHR 0x09] [''Class'', '''', ''MWF'', ''Room 101'', ''Jan 06, 2025 - Apr 08, 2025'',
                       ''Lecture'', ''Ada Lovelace'']]"

definition block_no_days_column :: string where
  "block_no_days_column = join [CHR 0x0A]
     [''COMP 1406 B'',
      ''Scheduled Meeting Times'',
      join [CHR 0x09] [''Type'', ''Time'', ''Day'', ''Where''],
      join [CHR 0x09] [''Class'', ''9:30 am - 10:45 am'', ''MWF'', ''Room 101'']]"

definition block_lecture :: string where
  "block_lecture = join [CHR 0x0A]
     [''COMP 1405 A'',
      ''Assigned Instructor: Ada Lovelace'',
      ''Scheduled Meeting Times'',
      header_row,
      join [CHR 0x09] [''Class'', ''9:30 am - 10:45 am'', ''MWF'', ''Room 101'',
                       ''Jan 06, 2025 - Apr 08, 2025'', ''Lecture'', ''Ada Lovelace'']]"

definition text_two_blocks :: string where
  "text_two_blocks = block_lecture @ [CHR 0x0A, CHR 0x0A] @ block_short_row"

definition block_record :: "string \<Rightarrow> Course option" where
  \<comment> \<open>the record of a block, if the block gives one\<close>
  "block_record block = (case parseBlock block of Inr r \<Rightarrow> r | Inl e \<Rightarrow> None)"

section \<open>Properties of day-letter decoding\<close>

lemma parseDays_loop_acc:
  "parseDays_loop s result = result @ List.map_filter mapping_get s"
  by (induction s arbitrary: result) (simp_all split: option.splits)

lemma map_filter_append: "List.map_filter f (xs @ ys) = List.map_filter f xs @ List.map_filter f ys"
  by (simp add: List.map_filter_def)

lemma map_filter_concat:
  "List.map_filter f (concat (map g xs)) = concat (map (\<lambda>x. List.map_filter f (g x)) xs)"
  by (induction xs) (simp_all add: map_filter_append)

lemma letter_tokens:
  assumes "c \<in> set lower_letters"
  shows "List.map_filter mapping_get (upper_char c) = day_tokens c"
  using assms unfolding lower_letters_def
  apply simp
  apply (elim disjE)
  apply (simp_all add: upper_char_def lower_letters_def upper_letters_def mapping_get_def
      mapping_def day_tokens_def day_of_letter_def)
  done

lemma other_tokens:
  assumes "c \<notin> set lower_letters"
  shows "List.map_filter mapping_get (upper_char c) = day_tokens c"
proof -
  from assms have n: "map_of (zip lower_letters upper_letters) c = None"
    by (simp add: map_of_eq_None_iff lower_letters_def upper_letters_def)
  from assms have l: "c \<noteq> CHR ''m''" "c \<noteq> CHR ''t''" "c \<noteq> CHR ''w''" "c \<noteq> CHR ''r''"
    "c \<noteq> CHR ''f''" "c \<noteq> CHR ''s''" "c \<noteq> CHR ''u''"
    by (auto simp: lower_letters_def)
  show ?thesis
  proof (cases "c = CHR 0xDF \<or> c = CHR 0xB5 \<or> c = CHR 0xFF")
    case True
    then show ?thesis
      by (elim disjE)
        (simp_all add: upper_char_def mapping_get_def mapping_def day_tokens_def
          day_of_letter_def)
  next
    case False
    with n have "upper_char c = [Latin c]" by (simp add: upper_char_def)
    with False l show ?thesis
      by (simp add: mapping_get_def mapping_def day_tokens_def day_of_letter_def)
  qed
qed

lemma tokens_upper_char: "List.map_filter mapping_get (upper_char c) = day_tokens c"
  by (cases "c \<in> set lower_letters") (simp_all add: letter_tokens other_tokens)

lemma isspace_no_tokens: "isspace c \<Longrightarrow> day_tokens c = []"
  unfolding isspace_def
  apply simp
  apply (elim disjE)
  apply (simp_all add: day_tokens_def day_of_letter_def)
  done

lemma concat_map_no_tokens: "(\<And>x. x \<in> set xs \<Longrightarrow> f x = []) \<Longrightarrow> concat (map f xs) = []"
  by (induction xs) simp_all

lemma strip_decompose:
  "s = takeWhile isspace s @ strip s @ rev (takeWhile isspace (rev (dropWhile isspace s)))"
proof -
  let ?t = "dropWhile isspace s"
  have "?t = rev (takeWhile isspace (rev ?t) @ dropWhile isspace (rev ?t))"
    by (simp only: takeWhile_dropWhile_id rev_rev_ident)
  also have "\<dots> = strip s @ rev (takeWhile isspace (rev ?t))"
    by (simp only: rev_append strip_def lstrip_def rstrip_def)
  finally have "takeWhile isspace s @ ?t =
      takeWhile isspace s @ strip s @ rev (takeWhile isspace (rev ?t))"
    by (rule arg_cong)
  then show ?thesis by (simp only: takeWhile_dropWhile_id)
qed

lemma day_tokens_strip: "concat (map day_tokens (strip s)) = concat (map day_tokens s)"
proof -
  let ?pre = "takeWhile isspace s"
  let ?post = "rev (takeWhile isspace (rev (dropWhile isspace s)))"
  have pre: "concat (map day_tokens ?pre) = []"
    by (rule concat_map_no_tokens) (auto dest: set_takeWhileD intro: isspace_no_tokens)
  have post: "concat (map day_tokens ?post) = []"
    by (rule concat_map_no_tokens) (auto dest: set_takeWhileD intro: isspace_no_tokens)
  have "concat (map day_tokens s) = concat (map day_tokens (?pre @ strip s @ ?post))"
    by (rule arg_cong[OF strip_decompose])
  also have "\<dots> = concat (map day_tokens (strip s))"
    by (simp only: map_append concat_append pre post append_Nil append_Nil2)
  finally show ?thesis by (rule sym)
qed

lemma parseDays_day_tokens: "parseDays s = concat (map day_tokens s)"
proof -
  have "parseDays s = concat (map (\<lambda>c. List.map_filter mapping_get (upper_char c)) (strip s))"
    by (simp add: parseDays_def parseDays_loop_acc upper_def map_filter_concat)
  then show ?thesis by (simp add: tokens_upper_char day_tokens_strip)
qed


text \<open>
  Without the sharp s in the input, the decoding is the case-insensitive table of the
  specification, and nothing else.
\<close>

lemma parseDays_without_sharp_s:
  assumes "CHR 0xDF \<notin> set s"
  shows "parseDays s = List.map_filter day_of_letter s"
proof -
  have "concat (map day_tokens s) = List.map_filter day_of_letter s"
    using assms by (induction s) (auto simp: day_tokens_def split: option.splits)
  then show ?thesis by (simp add: parseDays_day_tokens)
qed



section \<open>Properties of the calendar\<close>

lemma mod_0_trans: "(a::nat) dvd b \<Longrightarrow> n mod b = 0 \<Longrightarrow> n mod a = 0"
  by (meson dvd_trans mod_eq_0_iff_dvd)

lemma days_before_year_add:
  "days_before_year (Suc p) + p div 100 = p * 365 + p div 4 + p div 400"
proof -
  have "p div 100 \<le> p div 4" by (rule div_le_mono2) simp_all
  then show ?thesis by (simp add: days_before_year_def)
qed

lemma days_before_year_Suc:
  assumes "1 \<le> y"
  shows "days_before_year (Suc y) = days_before_year y + (if is_leap y then 366 else 365)"
proof -
  from assms obtain p where p: "y = Suc p" by (cases y) auto
  have e: "Suc p mod 400 = 0 \<Longrightarrow> Suc p mod 100 = 0"
    by (rule mod_0_trans[of 100 400]) simp_all
  have f: "Suc p mod 100 = 0 \<Longrightarrow> Suc p mod 4 = 0"
    by (rule mod_0_trans[of 4 100]) simp_all
  have l: "days_before_year (Suc p) + p div 100 = p * 365 + p div 4 + p div 400"
    by (rule days_before_year_add)
  have r: "days_before_year (Suc (Suc p)) + Suc p div 100 =
           Suc p * 365 + Suc p div 4 + Suc p div 400"
    by (rule days_before_year_add)
  show ?thesis
    unfolding p is_leap_def using e f l r
    by (cases "Suc p mod 4 = 0"; cases "Suc p mod 100 = 0"; cases "Suc p mod 400 = 0";
        simp add: div_Suc)
qed

lemma days_before_month_Suc:
  assumes "1 \<le> m" "m < 12"
  shows "days_before_month y (Suc m) = days_before_month y m + days_in_month y m"
proof -
  from assms have "m = 1 \<or> m = 2 \<or> m = 3 \<or> m = 4 \<or> m = 5 \<or> m = 6 \<or> m = 7 \<or> m = 8 \<or> m = 9 \<or> m = 10 \<or> m = 11"
    by arith
  then show ?thesis
    by (elim disjE) (simp_all add: days_before_month_def days_in_month_def DAYS_BEFORE_MONTH_def DAYS_IN_MONTH_def)
qed
lemma days_in_december: "days_before_month y 12 + days_in_month y 12 = (if is_leap y then 366 else 365)"
  by (simp add: days_before_month_def days_in_month_def DAYS_BEFORE_MONTH_def DAYS_IN_MONTH_def)
lemma toordinal_next_day:
  assumes "valid_date d"
  shows "toordinal (next_day d) = toordinal d + 1"
proof -
  from assms have v: "1 \<le> year d" "1 \<le> month d" "month d \<le> 12" "day d \<le> days_in_month (year d) (month d)"
    by (simp_all add: valid_date_def)
  show ?thesis
  proof (cases "day d < days_in_month (year d) (month d)")
    case True
    then show ?thesis by (simp add: next_day_def toordinal_def)
  next
    case last: False
    with v have eq: "day d = days_in_month (year d) (month d)" by simp
    show ?thesis
    proof (cases "month d < 12")
      case True
      with last v show ?thesis
        by (simp add: next_day_def toordinal_def days_before_month_Suc eq)
    next
      case False
      with v have m: "month d = 12" by simp
      have "days_before_month (Suc (year d)) 1 = 0"
        by (simp add: days_before_month_def DAYS_BEFORE_MONTH_def)
      with last m v days_in_december[of "year d"] show ?thesis
        by (simp add: next_day_def toordinal_def days_before_year_Suc eq)
    qed
  qed
qed
lemma toordinal_max: "toordinal \<lparr>year = 9999, month = 12, day = 31\<rparr> = MAXORDINAL"
  by (simp add: toordinal_def days_before_year_def days_before_month_def DAYS_BEFORE_MONTH_def is_leap_def MAXORDINAL_def)

lemma days_in_month_pos: "1 \<le> m \<Longrightarrow> m \<le> 12 \<Longrightarrow> 1 \<le> days_in_month y m"
proof -
  assume "1 \<le> m" "m \<le> 12"
  then have "m = 1 \<or> m = 2 \<or> m = 3 \<or> m = 4 \<or> m = 5 \<or> m = 6 \<or> m = 7 \<or> m = 8 \<or> m = 9 \<or> m = 10 \<or> m = 11 \<or> m = 12"
    by arith
  then show ?thesis
    by (elim disjE) (simp_all add: days_in_month_def DAYS_IN_MONTH_def)
qed
lemma valid_next_day:
  assumes "valid_date d" "toordinal d + 1 \<le> MAXORDINAL"
  shows "valid_date (next_day d)"
proof -
  from assms have v: "1 \<le> year d" "year d \<le> 9999" "1 \<le> month d" "month d \<le> 12" "1 \<le> day d"
    "day d \<le> days_in_month (year d) (month d)"
    by (simp_all add: valid_date_def)
  show ?thesis
  proof (cases "day d < days_in_month (year d) (month d)")
    case True
    with v show ?thesis by (simp add: next_day_def valid_date_def)
  next
    case last: False
    show ?thesis
    proof (cases "month d < 12")
      case True
      with last v days_in_month_pos[of "Suc (month d)" "year d"] show ?thesis
        by (simp add: next_day_def valid_date_def)
    next
      case False
      with v have m: "month d = 12" by simp
      with last v have dd: "day d = 31"
        by (simp add: days_in_month_def DAYS_IN_MONTH_def)
      have "year d \<noteq> 9999"
      proof
        assume y: "year d = 9999"
        then have "toordinal d = MAXORDINAL"
          by (simp add: toordinal_def m dd days_before_year_def days_before_month_def
              DAYS_BEFORE_MONTH_def is_leap_def MAXORDINAL_def)
        with assms(2) show False by simp
      qed
      with v last m show ?thesis
        by (simp add: next_day_def valid_date_def days_in_month_def DAYS_IN_MONTH_def)
    qed
  qed
qed
lemma add_day_ok:
  "toordinal d + 1 \<le> MAXORDINAL \<Longrightarrow> add_day d = Inr (next_day d)"
  by (simp add: add_day_def)
lemma plus_days_props:
  "valid_date d \<Longrightarrow> toordinal d + k \<le> MAXORDINAL \<Longrightarrow>
   valid_date (plus_days d k) \<and> toordinal (plus_days d k) = toordinal d + k"
proof (induction k arbitrary: d)
  case 0
  then show ?case by simp
next
  case (Suc k)
  from Suc.prems have "valid_date (next_day d)" by (simp add: valid_next_day)
  moreover from Suc.prems have "toordinal (next_day d) + k \<le> MAXORDINAL"
    by (simp add: toordinal_next_day)
  ultimately show ?case
    using Suc.IH[of "next_day d"] Suc.prems by (simp add: toordinal_next_day)
qed
section \<open>Properties of the first-occurrence search\<close>

lemma loop_found:
  "valid_date cur \<Longrightarrow> k < n \<Longrightarrow> toordinal cur + k \<le> MAXORDINAL \<Longrightarrow>
   weekday (plus_days cur k) \<in> set tw \<Longrightarrow>
   (\<And>j. j < k \<Longrightarrow> weekday (plus_days cur j) \<notin> set tw) \<Longrightarrow>
   getFirstOccurrence_loop n tw start cur = Inr (plus_days cur k)"
proof (induction n arbitrary: cur k)
  case 0
  then show ?case by simp
next
  case (Suc n)
  show ?case
  proof (cases k)
    case 0
    with Suc.prems show ?thesis by simp
  next
    case (Suc k')
    from Suc.prems(5)[of 0] Suc have nw: "weekday cur \<notin> set tw" by simp
    from Suc.prems Suc have a: "add_day cur = Inr (next_day cur)" by (simp add: add_day_ok)
    have "getFirstOccurrence_loop n tw start (next_day cur) = Inr (plus_days (next_day cur) k')"
    proof (rule Suc.IH)
      show "valid_date (next_day cur)" using Suc.prems Suc by (simp add: valid_next_day)
      show "k' < n" using Suc.prems Suc by simp
      show "toordinal (next_day cur) + k' \<le> MAXORDINAL"
        using Suc.prems Suc by (simp add: toordinal_next_day)
      show "weekday (plus_days (next_day cur) k') \<in> set tw" using Suc.prems Suc by simp
      show "\<And>j. j < k' \<Longrightarrow> weekday (plus_days (next_day cur) j) \<notin> set tw"
        using Suc.prems(5)[of "Suc j" for j] Suc by simp
    qed
    with nw a Suc show ?thesis by simp
  qed
qed
lemma loop_none:
  "valid_date cur \<Longrightarrow> toordinal cur + n \<le> MAXORDINAL \<Longrightarrow>
   (\<And>j. j < n \<Longrightarrow> weekday (plus_days cur j) \<notin> set tw) \<Longrightarrow>
   getFirstOccurrence_loop n tw start cur = Inr start"
proof (induction n arbitrary: cur)
  case 0
  then show ?case by simp
next
  case (Suc n)
  from Suc.prems(3)[of 0] have nw: "weekday cur \<notin> set tw" by simp
  from Suc.prems have a: "add_day cur = Inr (next_day cur)" by (simp add: add_day_ok)
  have "getFirstOccurrence_loop n tw start (next_day cur) = Inr start"
  proof (rule Suc.IH)
    show "valid_date (next_day cur)" using Suc.prems by (simp add: valid_next_day)
    show "toordinal (next_day cur) + n \<le> MAXORDINAL"
      using Suc.prems by (simp add: toordinal_next_day)
    show "\<And>j. j < n \<Longrightarrow> weekday (plus_days (next_day cur) j) \<notin> set tw"
      using Suc.prems(3)[of "Suc j" for j] by simp
  qed
  with nw a show ?case by simp
qed

lemma targetWeekdays_lt7: "t \<in> set (targetWeekdays bl) \<Longrightarrow> t < 7"
proof -
  assume "t \<in> set (targetWeekdays bl)"
  then obtain x where "map_of weekdayMapping x = Some t"
    by (auto simp: targetWeekdays_def List.map_filter_def)
  then have "(x, t) \<in> set weekdayMapping" by (rule map_of_SomeD)
  then have "t \<in> snd ` set weekdayMapping" by force
  then show ?thesis unfolding weekdayMapping_def by (simp, elim disjE, simp_all)
qed

lemma weekday_plus_days:
  assumes "valid_date d" "toordinal d + k \<le> MAXORDINAL"
  shows "weekday (plus_days d k) = (weekday d + k) mod 7"
proof -
  have "toordinal (plus_days d k) = toordinal d + k"
    using plus_days_props[OF assms] by simp
  then have "weekday (plus_days d k) = (toordinal d + 6 + k) mod 7"
    by (simp add: weekday_def add.assoc add.commute)
  also have "\<dots> = ((toordinal d + 6) mod 7 + k) mod 7"
    by (rule mod_add_left_eq[symmetric])
  finally show ?thesis by (simp add: weekday_def)
qed
lemma shift_mod7: "t < 7 \<Longrightarrow> (w::nat) < 7 \<Longrightarrow> (w + (t + 7 - w) mod 7) mod 7 = t"
proof -
  assume a: "t < 7" "w < 7"
  have "(w + (t + 7 - w) mod 7) mod 7 = (w + (t + 7 - w)) mod 7"
    by (rule mod_add_right_eq)
  also from a have "w + (t + 7 - w) = t + 7" by simp
  finally show ?thesis using a by simp
qed

lemma weekday_lt7: "weekday d < 7"
  by (simp add: weekday_def)

lemma exists_match:
  assumes "valid_date d" "toordinal d + 6 \<le> MAXORDINAL" "t \<in> set tw" "t < 7"
  shows "\<exists>k<7. weekday (plus_days d k) \<in> set tw"
proof -
  define k where "k = (t + 7 - weekday d) mod 7"
  have k7: "k < 7" by (simp add: k_def)
  have "(weekday d + k) mod 7 = t"
    using assms(4) weekday_lt7[of d] unfolding k_def by (rule shift_mod7)
  moreover from assms k7 have "weekday (plus_days d k) = (weekday d + k) mod 7"
    by (intro weekday_plus_days) simp_all
  ultimately show ?thesis using k7 assms(3) by auto
qed

lemma getFirstOccurrence_loop_unfold:
  "0 < n \<Longrightarrow> getFirstOccurrence_loop n targets startDate current =
     (if weekday current \<in> set targets then Inr current
      else case add_day current of
             Inl e \<Rightarrow> Inl e
           | Inr c \<Rightarrow> getFirstOccurrence_loop (n - 1) targets startDate c)"
  by (cases n) (simp_all split: sum.splits)
lemmas date_eval = weekday_def toordinal_def days_before_year_def days_before_month_def
  DAYS_BEFORE_MONTH_def is_leap_def add_day_def next_day_def days_in_month_def DAYS_IN_MONTH_def
  MAXORDINAL_def valid_date_def

lemma getFirstOccurrence_first_match:
  assumes "valid_date startDate"
    and "toordinal startDate + (if targetWeekdays bydayList = [] then 7 else 6) \<le> MAXORDINAL"
  shows "\<exists>r. getFirstOccurrence startDate bydayList = Inr r \<and>
           (if targetWeekdays bydayList = [] then r = startDate
            else \<exists>k<7. r = plus_days startDate k \<and>
                   toordinal r = toordinal startDate + k \<and>
                   weekday r \<in> set (targetWeekdays bydayList) \<and>
                   (\<forall>j<k. weekday (plus_days startDate j) \<notin> set (targetWeekdays bydayList)))"
proof (cases "targetWeekdays bydayList = []")
  case True
  with assms have "getFirstOccurrence_loop 7 [] startDate startDate = Inr startDate"
    by (intro loop_none) simp_all
  with True show ?thesis by (simp add: getFirstOccurrence_def)
next
  case False
  let ?tw = "targetWeekdays bydayList"
  let ?P = "\<lambda>k. k < 7 \<and> weekday (plus_days startDate k) \<in> set ?tw"
  from False obtain t where t: "t \<in> set ?tw" by (cases ?tw) auto
  from assms False have b6: "toordinal startDate + 6 \<le> MAXORDINAL" by simp
  from exists_match[OF assms(1) b6 t targetWeekdays_lt7[OF t]]
  obtain k0 where "?P k0" by auto
  define k where "k = (LEAST k. ?P k)"
  have Pk: "?P k" unfolding k_def using \<open>?P k0\<close> by (rule LeastI)
  have least: "\<And>j. j < k \<Longrightarrow> weekday (plus_days startDate j) \<notin> set ?tw"
  proof -
    fix j assume jk: "j < k"
    then have "\<not> ?P j" unfolding k_def by (rule not_less_Least)
    with jk Pk show "weekday (plus_days startDate j) \<notin> set ?tw" by simp
  qed
  from Pk b6 have bk: "toordinal startDate + k \<le> MAXORDINAL" by simp
  have "getFirstOccurrence_loop 7 ?tw startDate startDate = Inr (plus_days startDate k)"
    using assms(1) _ bk _ least by (rule loop_found) (use Pk in simp_all)
  moreover have "toordinal (plus_days startDate k) = toordinal startDate + k"
    using plus_days_props[OF assms(1) bk] by simp
  ultimately show ?thesis
    using False Pk least by (auto simp: getFirstOccurrence_def)
qed


text \<open>
  Claim C5, as amended. The search reads the start date and then at most the six days
  after it, stepping one day at a time, and returns the first of them whose weekday is
  among the targets decoded from the valid tokens of the list. Whenever the days it
  steps to exist (the start date is no later than 9999-12-25, six days before the last
  date of the calendar, and no later than 9999-12-24 when no token is valid), a date is
  returned: with at least one valid token it is the first match, which lies within the
  seven days; with no valid token it is the start date itself.
\<close>

theorem getFirstOccurrence_scan:
  assumes "valid_date startDate"
    and "toordinal startDate + (if targetWeekdays bydayList = [] then 7 else 6) \<le> MAXORDINAL"
  shows "\<exists>r. getFirstOccurrence startDate bydayList = Inr r \<and>
           (if targetWeekdays bydayList = [] then r = startDate
            else \<exists>k<7. r = plus_days startDate k \<and>
                   toordinal r = toordinal startDate + k \<and>
                   weekday r \<in> set (targetWeekdays bydayList) \<and>
                   (\<forall>j<k. weekday (plus_days startDate j) \<notin> set (targetWeekdays bydayList)))"
  using assms by (rule getFirstOccurrence_first_match)

theorem getFirstOccurrence_scan_witness:
  "valid_date \<lparr>year = 2025, month = 1, day = 8\<rparr> \<and>
   toordinal \<lparr>year = 2025, month = 1, day = 8\<rparr> + 6 \<le> MAXORDINAL \<and>
   targetWeekdays [''MO''] = [0] \<and>
   (\<exists>r. getFirstOccurrence \<lparr>year = 2025, month = 1, day = 8\<rparr> [''MO''] = Inr r \<and>
      (\<exists>k<7. r = plus_days \<lparr>year = 2025, month = 1, day = 8\<rparr> k \<and>
         toordinal r = toordinal \<lparr>year = 2025, month = 1, day = 8\<rparr> + k \<and>
         weekday r \<in> set [0] \<and>
         (\<forall>j<k. weekday (plus_days \<lparr>year = 2025, month = 1, day = 8\<rparr> j) \<notin> set [0])))"
proof -
  let ?d = "\<lparr>year = 2025, month = 1, day = 8\<rparr>"
  have v: "valid_date ?d" by (simp add: date_eval)
  have t: "targetWeekdays [''MO''] = [0]"
    by (simp add: targetWeekdays_def weekdayMapping_def)
  have b: "toordinal ?d + 6 \<le> MAXORDINAL" by (simp add: date_eval)
  then have b': "toordinal ?d + (if targetWeekdays [''MO''] = [] then 7 else 6) \<le> MAXORDINAL"
    by (simp add: t)
  from getFirstOccurrence_scan[OF v b'] v b t show ?thesis by simp
qed

text \<open>
  The claim as stated fails at the end of the calendar: 9999-12-31 is a Friday, the
  Monday after it is no date, and the step to the next day raises \<open>OverflowError\<close>,
  although the target set is not empty.
\<close>

theorem getFirstOccurrence_overflow:
  "valid_date \<lparr>year = 9999, month = 12, day = 31\<rparr> \<and>
   targetWeekdays [''MO''] = [0] \<and>
   getFirstOccurrence \<lparr>year = 9999, month = 12, day = 31\<rparr> [''MO''] = Inl OverflowError"
  by (simp add: getFirstOccurrence_def targetWeekdays_def weekdayMapping_def
      getFirstOccurrence_loop_unfold date_eval)

text \<open>
  The examples of the specification: 2025-01-08 is a Wednesday; with Monday as target the
  search returns the Monday five days later, with Wednesday as target the start date.
\<close>

lemma getFirstOccurrence_examples:
  "weekday \<lparr>year = 2025, month = 1, day = 8\<rparr> = 2 \<and>
   getFirstOccurrence \<lparr>year = 2025, month = 1, day = 8\<rparr> [''MO''] =
     Inr \<lparr>year = 2025, month = 1, day = 13\<rparr> \<and>
   getFirstOccurrence \<lparr>year = 2025, month = 1, day = 8\<rparr> [''WE''] =
     Inr \<lparr>year = 2025, month = 1, day = 8\<rparr>"
  by (simp add: getFirstOccurrence_def targetWeekdays_def weekdayMapping_def
      getFirstOccurrence_loop_unfold date_eval)

section \<open>Properties of the date-range resolution\<close>

lemma strptime_error: "strptime s fmt = Inl e \<Longrightarrow> e = ValueError"
  by (simp add: strptime_def new_date_def Let_def split: list.splits prod.splits if_splits)
lemma try_both_parse:
  "parseDateRange_try fmt a b = (case both_parse fmt a b of None \<Rightarrow> Inl ValueError | Some r \<Rightarrow> Inr r)"
  by (auto simp: parseDateRange_try_def both_parse_def split: sum.splits dest: strptime_error)
lemma loop_both_parse:
  "parseDateRange_loop [MDY, BDY] a b =
     Inr (case both_parse MDY a b of Some r \<Rightarrow> Some r | None \<Rightarrow> both_parse BDY a b)"
  by (simp add: try_both_parse split: option.splits)
lemma parseDateRange_eq_spec: "parseDateRange s = date_range_spec s"
  by (simp add: parseDateRange_def date_range_spec_def unpack2_def loop_both_parse
      del: parseDateRange_loop.simps split: list.splits)
text \<open>
  Claim C7. For every input string, \<open>parseDateRange\<close> returns a pair of dates exactly
  when the string splits on \<open>-\<close> into two parts and both parts, trimmed, parse under
  the same format, the numeric format \<open>MM/DD/YYYY\<close> being tried before the format
  \<open>Mon DD, YYYY\<close>; in every other case it returns the failure value, and it never
  raises. Both example ranges give 2025-01-06 to 2025-04-08, and \<open>garbage\<close> fails.
\<close>

theorem parseDateRange_formats:
  "parseDateRange s = date_range_spec s \<and>
   parseDateRange ''01/06/2025 - 04/08/2025'' =
     Some (\<lparr>year = 2025, month = 1, day = 6\<rparr>, \<lparr>year = 2025, month = 4, day = 8\<rparr>) \<and>
   parseDateRange ''Jan 06, 2025 - Apr 08, 2025'' =
     Some (\<lparr>year = 2025, month = 1, day = 6\<rparr>, \<lparr>year = 2025, month = 4, day = 8\<rparr>) \<and>
   parseDateRange ''garbage'' = None"
proof -
  have a: "parseDateRange ''01/06/2025 - 04/08/2025'' =
     Some (\<lparr>year = 2025, month = 1, day = 6\<rparr>, \<lparr>year = 2025, month = 4, day = 8\<rparr>)"
    by code_simp
  have b: "parseDateRange ''Jan 06, 2025 - Apr 08, 2025'' =
     Some (\<lparr>year = 2025, month = 1, day = 6\<rparr>, \<lparr>year = 2025, month = 4, day = 8\<rparr>)"
    by code_simp
  have c: "parseDateRange ''garbage'' = None"
    by code_simp
  from a b c show ?thesis by (simp only: parseDateRange_eq_spec[of s] simp_thms)
qed

section \<open>A time range that ends before it starts\<close>

lemma late_night_times:
  "parseTimeRange ''11:00 PM - 1:00 AM'' \<lparr>year = 2025, month = 1, day = 6\<rparr> tzid =
     Some (\<lparr>date_of = \<lparr>year = 2025, month = 1, day = 6\<rparr>, hour = 23, minute = 0, second = 0,
             tzinfo = Some tzid\<rparr>,
           \<lparr>date_of = \<lparr>year = 2025, month = 1, day = 6\<rparr>, hour = 1, minute = 0, second = 0,
             tzinfo = Some tzid\<rparr>)"
  by code_simp

lemma late_night_event:
  "course_event dtStamp uid4
     \<lparr>className = ''COMP 1405'', instructor = ''TBA'', meetingType = ''lecture'',
      time = ''11:00 PM - 1:00 AM'', days = ''MWF'', location = ''TBA'',
      dateRange = ''01/06/2025 - 04/08/2025''\<rparr> =
   Inr (Some [''BEGIN:VEVENT'',
              ''UID:'' @ uid4 @ ''@coursecalendar'',
              ''DTSTAMP:'' @ dtStamp,
              ''DTSTART;TZID=America/New_York:20250106T230000'',
              ''DTEND;TZID=America/New_York:20250106T010000'',
              ''RRULE:FREQ=WEEKLY;UNTIL=20250408T230000;BYDAY=MO,WE,FR'',
              ''SUMMARY:COMP 1405'',
              ''DESCRIPTION:Type: Lecture'' @ [CHR 0x5C, CHR ''n''] @ ''Instructor: TBA'',
              ''LOCATION:TBA'',
              ''END:VEVENT''])"
proof -
  have r: "parseDateRange ''01/06/2025 - 04/08/2025'' =
     Some (\<lparr>year = 2025, month = 1, day = 6\<rparr>, \<lparr>year = 2025, month = 4, day = 8\<rparr>)"
    by code_simp
  have d: "parseDays ''MWF'' = [''MO'', ''WE'', ''FR'']"
    by code_simp
  have f: "getFirstOccurrence \<lparr>year = 2025, month = 1, day = 6\<rparr> [''MO'', ''WE'', ''FR''] =
     Inr \<lparr>year = 2025, month = 1, day = 6\<rparr>"
    by (simp add: getFirstOccurrence_def targetWeekdays_def weekdayMapping_def
        getFirstOccurrence_loop_unfold date_eval)
  have s: "formatDateTime \<lparr>date_of = \<lparr>year = 2025, month = 1, day = 6\<rparr>, hour = 23,
             minute = 0, second = 0, tzinfo = Some tzid\<rparr> = ''20250106T230000''"
    by code_simp
  have e: "formatDateTime \<lparr>date_of = \<lparr>year = 2025, month = 1, day = 6\<rparr>, hour = 1,
             minute = 0, second = 0, tzinfo = Some tzid\<rparr> = ''20250106T010000''"
    by code_simp
  have u: "formatDateTime \<lparr>date_of = \<lparr>year = 2025, month = 4, day = 8\<rparr>, hour = 23,
             minute = 0, second = 0, tzinfo = Some tzid\<rparr> = ''20250408T230000''"
    by code_simp
  have c: "capitalize ''lecture'' = ''Lecture''"
    by code_simp
  show ?thesis
    by (simp add: course_event_def r d f late_night_times combine_def s e u c Let_def
        del: One_nat_def) (simp add: tzid_def)
qed

text \<open>
  Claim C10. Neither \<open>parseTimeRange\<close> nor \<open>generateICS\<close> compares the two ends of
  a time range: both clock times are put on the same calendar date. For the record with
  the time \<open>11:00 PM - 1:00 AM\<close>, \<open>parseTimeRange\<close> returns a pair whose end lies
  before its start, and the calendar still holds the event, its \<open>DTEND\<close> earlier than
  its \<open>DTSTART\<close>.
\<close>

theorem end_before_start_emitted:
  "parseTimeRange ''11:00 PM - 1:00 AM'' \<lparr>year = 2025, month = 1, day = 6\<rparr> tzid =
     Some (\<lparr>date_of = \<lparr>year = 2025, month = 1, day = 6\<rparr>, hour = 23, minute = 0, second = 0,
             tzinfo = Some tzid\<rparr>,
           \<lparr>date_of = \<lparr>year = 2025, month = 1, day = 6\<rparr>, hour = 1, minute = 0, second = 0,
             tzinfo = Some tzid\<rparr>) \<and>
   instant_before
     \<lparr>date_of = \<lparr>year = 2025, month = 1, day = 6\<rparr>, hour = 1, minute = 0, second = 0,
       tzinfo = Some tzid\<rparr>
     \<lparr>date_of = \<lparr>year = 2025, month = 1, day = 6\<rparr>, hour = 23, minute = 0, second = 0,
       tzinfo = Some tzid\<rparr> \<and>
   generateICS_lines dtStamp uuid4
     [\<lparr>className = ''COMP 1405'', instructor = ''TBA'', meetingType = ''lecture'',
       time = ''11:00 PM - 1:00 AM'', days = ''MWF'', location = ''TBA'',
       dateRange = ''01/06/2025 - 04/08/2025''\<rparr>] calendarName =
   Inr [''BEGIN:VCALENDAR'',
        ''VERSION:2.0'',
        ''PRODID:-//Course ICS Converter//EN'',
        ''X-WR-CALNAME:'' @ calendarName,
        generateVTimezone tzid,
        ''BEGIN:VEVENT'',
        ''UID:'' @ uuid4 0 @ ''@coursecalendar'',
        ''DTSTAMP:'' @ dtStamp,
        ''DTSTART;TZID=America/New_York:20250106T230000'',
        ''DTEND;TZID=America/New_York:20250106T010000'',
        ''RRULE:FREQ=WEEKLY;UNTIL=20250408T230000;BYDAY=MO,WE,FR'',
        ''SUMMARY:COMP 1405'',
        ''DESCRIPTION:Type: Lecture'' @ [CHR 0x5C, CHR ''n''] @ ''Instructor: TBA'',
        ''LOCATION:TBA'',
        ''END:VEVENT'',
        ''END:VCALENDAR'']"
  by (simp add: late_night_times late_night_event generateICS_lines_def instant_before_def
      del: One_nat_def)

section \<open>Properties of the generator\<close>




















section \<open>Properties of the parser\<close>

text \<open>
  Claim C1 says that \<open>parseCourses\<close> never raises, however malformed a block is. The
  header lookup catches \<open>ValueError\<close> only: when the data line has fewer tab-separated
  cells than the position of a header that was found, \<open>data[...]\<close> raises \<open>IndexError\<close>
  and no list of records is returned. Here the data line has two cells and the header
  \<open>Days\<close> stands at position 2.
\<close>

theorem parseCourses_raises: "parseCourses block_short_row = Inl IndexError"
  by code_simp

text \<open>
  Claim C3 says that no field of a record is ever the empty string and that each field
  holds text or exactly the sentinel \<open>TBA\<close>. The constructor puts the sentinel in place
  of an empty instructor or location, but stores the other four fields as they come: an
  empty cell under \<open>Time\<close> leaves the record with the empty string as its time, and a
  meeting type that was never read is stored as \<open>tba\<close>, the sentinel in lower case.
\<close>

theorem parseCourses_empty_field:
  "parseCourses block_empty_cell =
     Inr [\<lparr>className = ''COMP 1405 A'', instructor = ''Ada Lovelace'', meetingType = ''lecture'',
           time = '''', days = ''MWF'', location = ''Room 101'',
           dateRange = ''Jan 06, 2025 - Apr 08, 2025''\<rparr>] \<and>
   parseCourses ''COMP 1406 B'' =
     Inr [\<lparr>className = ''COMP 1406 B'', instructor = ''TBA'', meetingType = ''tba'',
           time = ''TBA'', days = ''TBA'', location = ''TBA'', dateRange = ''TBA''\<rparr>]"
  by code_simp

text \<open>
  Claim C8 says that the fallback on column positions leaves all schedule fields at the
  sentinel when the data line splits into fewer than 7 fields. After a failed header
  lookup this is not so: the assignments made before the missing header stay. Here the
  header line has \<open>Time\<close> but no \<open>Days\<close>; the data line has no run of two whitespace
  characters, so the fallback finds one field only; the record keeps the time read
  through the header, with the sentinel in the other fields.
\<close>

theorem parseCourses_partial_fields:
  "length (re_split (join [CHR 0x09] [''Class'', ''9:30 am - 10:45 am'', ''MWF'', ''Room 101''])) = 1 \<and>
   parseCourses block_no_days_column =
     Inr [\<lparr>className = ''COMP 1406 B'', instructor = ''TBA'', meetingType = ''tba'',
           time = ''9:30 am - 10:45 am'', days = ''TBA'', location = ''TBA'',
           dateRange = ''TBA''\<rparr>]"
  by code_simp

text \<open>
  Claim C9 says that every input text gives one record per block that is not empty.
  The text of two blocks below has two such blocks, and the first one alone is parsed
  into a record; the second raises \<open>IndexError\<close> as above, and \<open>parseCourses\<close> returns no
  record at all.
\<close>

theorem parseCourses_no_records:
  "map strip (split (strip text_two_blocks) [CHR 0x0A, CHR 0x0A]) =
     [block_lecture, block_short_row] \<and>
   parseBlock block_lecture =
     Inr (Some \<lparr>className = ''COMP 1405 A'', instructor = ''Ada Lovelace'',
                meetingType = ''lecture'', time = ''9:30 am - 10:45 am'', days = ''MWF'',
                location = ''Room 101'', dateRange = ''Jan 06, 2025 - Apr 08, 2025''\<rparr>) \<and>
   parseCourses text_two_blocks = Inl IndexError"
  by code_simp

section \<open>What the parser does guarantee\<close>

text \<open>
  \<open>IndexError\<close> is the only exception that \<open>parseCourses\<close> can raise: the header line
  is always there when the data line is, and the header lookup raises nothing else.
\<close>

lemma index_error: "index xs x = Inl e \<Longrightarrow> e = ValueError"
  by (induction xs arbitrary: e) (auto split: if_splits sum.splits)

lemma lookup_error: "lookup headers data name = Inl e \<Longrightarrow> e = ValueError \<or> e = IndexError"
  by (auto simp: lookup_def getitem_def split: sum.splits if_splits dest: index_error)

lemma try_headers_error:
  "try_headers headers data fs = (Some e, fs') \<Longrightarrow> e = ValueError \<or> e = IndexError"
  by (auto simp: try_headers_def Let_def split: sum.splits dest: lookup_error)

lemma extract_fields_error:
  "extract_fields (Some header) meetingInfoLine = Inl e \<Longrightarrow> e = IndexError"
  by (auto simp: extract_fields_def Let_def
      split: option.splits if_splits prod.splits py_error.splits dest: try_headers_error)

lemma extract_fields_none: "extract_fields headerLine None = Inr
    \<lparr>f_timeVal = ''TBA'', f_days = ''TBA'', f_location = ''TBA'', f_dateRange = ''TBA'',
     f_meetingType = ''TBA''\<rparr>"
  by (simp add: extract_fields_def)

lemma parseBlock_error: "parseBlock block = Inl e \<Longrightarrow> e = IndexError"
proof -
  assume a: "parseBlock block = Inl e"
  let ?lines = "splitlines (strip block)"
  show ?thesis
  proof (cases "find_scheduled ?lines 0")
    case None
    with a show ?thesis
      by (simp add: parseBlock_def Let_def extract_fields_none split: if_splits)
  next
    case (Some i)
    show ?thesis
    proof (cases "i + 2 < length ?lines")
      case True
      with a Some show ?thesis
        by (auto simp: parseBlock_def Let_def split: if_splits sum.splits
            dest: extract_fields_error)
    next
      case False
      with a Some show ?thesis
        by (simp add: parseBlock_def Let_def extract_fields_none split: if_splits)
    qed
  qed
qed

lemma parseCourses_loop_error: "parseCourses_loop blocks courses = Inl e \<Longrightarrow> e = IndexError"
  by (induction blocks arbitrary: courses)
    (auto split: sum.splits option.splits dest: parseBlock_error)

lemma parseCourses_error: "parseCourses text = Inl e \<Longrightarrow> e = IndexError"
  unfolding parseCourses_def by (rule parseCourses_loop_error)


text \<open>
  The first line of a block that is not empty after trimming holds the first character
  of the block, which is not whitespace: the class name is never empty.
\<close>

lemma linebreak_isspace: "is_linebreak c \<Longrightarrow> isspace c"
  unfolding is_linebreak_def isspace_def
  apply simp
  apply (elim disjE)
  apply simp_all
  done

lemma splitlines_from_prefix:
  "splitlines_from cur s = l # ls \<Longrightarrow> \<exists>r. l = cur @ r"
  by (induction cur s arbitrary: l ls rule: splitlines_from.induct)
    (auto split: if_splits)

lemma splitlines_from_empty: "splitlines_from cur s = [] \<longleftrightarrow> cur = [] \<and> s = []"
  by (induction cur s rule: splitlines_from.induct) auto

lemma splitlines_from_first:
  assumes "\<not> is_linebreak c"
  shows "\<exists>r ls. splitlines_from cur (c # cs) = (cur @ c # r) # ls"
proof (cases cs)
  case Nil
  with assms show ?thesis by simp
next
  case (Cons d ds)
  from assms have ncr: "\<not> (c = CHR 0x0D \<and> d = CHR 0x0A)"
    by (auto simp: is_linebreak_def)
  have ne: "splitlines_from (cur @ [c]) (d # ds) \<noteq> []"
    by (simp add: splitlines_from_empty)
  then obtain l ls where e: "splitlines_from (cur @ [c]) (d # ds) = l # ls"
    by (cases "splitlines_from (cur @ [c]) (d # ds)") auto
  from splitlines_from_prefix[OF e] obtain r where "l = (cur @ [c]) @ r" ..
  with e Cons assms ncr show ?thesis by simp
qed

lemma splitlines_empty: "splitlines s = [] \<longleftrightarrow> s = []"
  by (simp add: splitlines_def splitlines_from_empty)

lemma rstrip_take: "rstrip t = take (length t - length (takeWhile isspace (rev t))) t"
proof -
  have "dropWhile isspace (rev t) = drop (length (takeWhile isspace (rev t))) (rev t)"
    by (rule dropWhile_eq_drop)
  then show ?thesis by (simp add: rstrip_def rev_drop)
qed

lemma strip_hd: "strip b \<noteq> [] \<Longrightarrow> \<not> isspace (hd (strip b))"
proof -
  assume ne: "strip b \<noteq> []"
  let ?t = "dropWhile isspace b"
  have s: "strip b = take (length ?t - length (takeWhile isspace (rev ?t))) ?t"
    by (simp add: strip_def lstrip_def rstrip_take)
  with ne have tne: "?t \<noteq> []" by auto
  then have "\<not> isspace (hd ?t)" by (rule hd_dropWhile)
  moreover from ne s have "hd (strip b) = hd ?t"
    by (metis hd_take take_eq_Nil gr0I)
  ultimately show ?thesis by simp
qed

lemma strip_nonspace_first: "\<not> isspace c \<Longrightarrow> strip (c # r) \<noteq> []"
proof -
  assume c: "\<not> isspace c"
  then have "dropWhile isspace (rev r @ [c]) \<noteq> []"
    by (simp add: dropWhile_append)
  with c show ?thesis by (simp add: strip_def lstrip_def rstrip_def)
qed

lemma first_line_name:
  assumes "strip b \<noteq> []"
  shows "strip (hd (splitlines (strip b))) \<noteq> []"
proof -
  from assms obtain c cs where s: "strip b = c # cs" by (cases "strip b") auto
  with strip_hd[OF assms] have ns: "\<not> isspace c" by simp
  then have "\<not> is_linebreak c" using linebreak_isspace by blast
  from splitlines_from_first[OF this, of "[]" cs]
  obtain r ls where "splitlines (strip b) = (c # r) # ls"
    by (auto simp: splitlines_def s)
  with ns show ?thesis by (simp add: strip_nonspace_first)
qed

text \<open>
  Whenever \<open>parseCourses\<close> returns, it returns one record for each block that is not
  empty after trimming, in the order of the text; the class name of a record is the
  trimmed first line of its block and is not empty, and neither its instructor nor its
  location is the empty string.
\<close>

lemma parseBlock_skip: "parseBlock block = Inr None \<longleftrightarrow> strip block = []"
  by (auto simp: parseBlock_def Let_def splitlines_empty split: sum.splits)

lemma Course_init_guards:
  "instructor (Course_init cn ins mt tm ds loc dr) \<noteq> [] \<and>
   location (Course_init cn ins mt tm ds loc dr) \<noteq> [] \<and>
   className (Course_init cn ins mt tm ds loc dr) = cn"
  by (simp add: Course_init_def split: option.splits)

lemma parseBlock_record:
  assumes "parseBlock block = Inr (Some course)"
  shows "strip block \<noteq> [] \<and> className course = strip (hd (splitlines (strip block))) \<and>
         className course \<noteq> [] \<and> instructor course \<noteq> [] \<and> location course \<noteq> []"
proof -
  from assms have ne: "splitlines (strip block) \<noteq> []"
    by (auto simp: parseBlock_def Let_def split: if_splits)
  then have sb: "strip block \<noteq> []" by (simp add: splitlines_empty)
  from assms ne obtain ins mt tm ds loc dr where
    "course = Course_init (strip (splitlines (strip block) ! 0)) ins mt tm ds loc dr"
    by (auto simp: parseBlock_def Let_def split: sum.splits)
  with Course_init_guards[of "strip (splitlines (strip block) ! 0)" ins mt tm ds loc dr] ne
  have "className course = strip (hd (splitlines (strip block)))"
    "instructor course \<noteq> []" "location course \<noteq> []"
    by (simp_all add: hd_conv_nth)
  with sb first_line_name[OF sb] show ?thesis by simp
qed

lemma parseCourses_loop_result:
  "parseCourses_loop blocks courses = Inr cs \<Longrightarrow>
   cs = courses @ List.map_filter block_record blocks \<and>
   map className (List.map_filter block_record blocks) =
     map (\<lambda>b. strip (hd (splitlines (strip b)))) (filter (\<lambda>b. strip b \<noteq> []) blocks)"
proof (induction blocks arbitrary: courses)
  case Nil
  then show ?case by (simp add: List.map_filter_simps)
next
  case (Cons b bs)
  show ?case
  proof (cases "parseBlock b")
    case (Inl e)
    with Cons.prems show ?thesis by simp
  next
    case (Inr r)
    show ?thesis
    proof (cases r)
      case None
      with Inr have "strip b = []" using parseBlock_skip by simp
      with Cons None Inr show ?thesis
        by (simp add: List.map_filter_simps block_record_def)
    next
      case (Some c)
      with Inr parseBlock_record[of b c]
      have "strip b \<noteq> []" "className c = strip (hd (splitlines (strip b)))" by simp_all
      with Cons.IH[of "courses @ [c]"] Cons.prems Some Inr show ?thesis
        by (simp add: List.map_filter_simps block_record_def)
    qed
  qed
qed

lemma parseCourses_records:
  assumes "parseCourses text = Inr cs"
  shows "map className cs =
           map (\<lambda>b. strip (hd (splitlines (strip b))))
             (filter (\<lambda>b. strip b \<noteq> []) (split (strip text) [CHR 0x0A, CHR 0x0A])) \<and>
         (\<forall>c \<in> set cs. className c \<noteq> [] \<and> instructor c \<noteq> [] \<and> location c \<noteq> [])"
proof -
  let ?blocks = "split (strip text) [CHR 0x0A, CHR 0x0A]"
  from assms have r: "parseCourses_loop ?blocks [] = Inr cs" by (simp add: parseCourses_def)
  from parseCourses_loop_result[OF r] have
    cs: "cs = List.map_filter block_record ?blocks" and
    names: "map className (List.map_filter block_record ?blocks) =
      map (\<lambda>b. strip (hd (splitlines (strip b)))) (filter (\<lambda>b. strip b \<noteq> []) ?blocks)"
    by simp_all
  have "className c \<noteq> [] \<and> instructor c \<noteq> [] \<and> location c \<noteq> []" if "c \<in> set cs" for c
  proof -
    from that cs obtain b where "block_record b = Some c"
      by (auto simp: List.map_filter_def)
    then have "parseBlock b = Inr (Some c)"
      by (auto simp: block_record_def split: sum.splits)
    from parseBlock_record[OF this] show ?thesis by blast
  qed
  with cs names show ?thesis by simp
qed

text \<open>
  The fallback on column positions, taken alone, is all or nothing; on a data line
  without tabs it starts from the sentinel in all five fields.
\<close>

lemma by_position_fields:
  "by_position line fs =
     (if 7 \<le> length (re_split line)
      then \<lparr>f_timeVal = strip (re_split line ! 1), f_days = strip (re_split line ! 2),
            f_location = strip (re_split line ! 3), f_dateRange = strip (re_split line ! 4),
            f_meetingType = lower (strip (re_split line ! 5))\<rparr>
      else fs)"
  by (simp add: by_position_def Let_def)

lemma extract_fields_no_tab:
  "info \<noteq> [] \<Longrightarrow> \<not> contains [CHR 0x09] info \<Longrightarrow>
   extract_fields headerLine (Some info) =
     Inr (by_position info \<lparr>f_timeVal = ''TBA'', f_days = ''TBA'', f_location = ''TBA'',
                             f_dateRange = ''TBA'', f_meetingType = ''TBA''\<rparr>)"
  by (simp add: extract_fields_def)

end
